theory Spec2Isabelle
  imports Main "HOL-Library.Sublist"
begin

section \<open>The retrieve-generate module of \<^verbatim>\<open>main.py\<close>\<close>

text \<open>
  The repository is one Python module, a straight-line script of twelve statements:
  four imports, the class \<^verbatim>\<open>AgentState\<close>, the construction of a graph builder, two
  node registrations, three edge registrations and the compilation of the builder.
  Each statement is embedded as a function on the interpreter state; the module is the
  list of its statements, run in order until one of them raises.

  The graph library is not part of the repository. Whether one of its operations
  raises, and what it does to the world outside the interpreter, is a parameter of the
  model (\<open>library\<close>), so every theorem below holds for every behaviour of the library.
  The names that are bound before the module starts (builtins, or what a caller of
  \<^verbatim>\<open>exec\<close> supplies) are a parameter too: the module refers to \<^verbatim>\<open>retrieve_node\<close>
  and \<^verbatim>\<open>generate_node\<close> and binds neither.
\<close>

subsection \<open>Values\<close>

text \<open>
  The objects the module handles. An object obtained by \<^verbatim>\<open>from m import x\<close> is
  opaque and identified by \<open>m\<close> and \<open>x\<close>, the two sentinels apart (see \<open>exported\<close>
  below); \<^verbatim>\<open>a[b, c]\<close> is the subscription of \<open>a\<close>; a class is its name, its bases and its
  annotated fields in declaration order.

  Modelled from the spec: the builder of the external library, which the source only
  calls. Section 6 of the specification describes it as accepting a state-shape
  declaration, registering named processing steps and registering directed edges between
  named steps or the start and end sentinels; the model keeps the declaration and the
  registrations in the order they were made. The compiled graph is the builder it was
  compiled from.
\<close>

datatype pyval =
    Str string
  | Function string
  | Imported string string
  | Subscript pyval "pyval list"
  | ClassObj string "pyval list" "(string \<times> pyval) list"
  | BuilderV builder
  | GraphV builder
and builder =
    Builder (shape: pyval) (nodes: "(string \<times> pyval) list") (edges: "(pyval \<times> pyval) list")

datatype error =
    NameError string
  | AttributeError string
  | TypeError string
  | Raised string

text \<open>
  The operations that run code of a library. \<open>AddNode\<close>, \<open>AddEdge\<close> and \<open>Compile\<close> carry
  the builder they are invoked on, as it is at the time of the call.
\<close>

datatype call =
    ImportFrom string "string list"
  | DefineClass string "pyval list" "(string \<times> pyval) list"
  | NewStateGraph pyval
  | AddNode builder string pyval
  | AddEdge builder pyval pyval
  | Compile builder

text \<open>
  A library answers a call, in a given world, with the exception it raises (if any) and
  the world it leaves behind.
\<close>

type_synonym 'w library = "call \<Rightarrow> 'w \<Rightarrow> string option \<times> 'w"

subsection \<open>Interpreter state\<close>

text \<open>
  \<open>globals\<close> is the module namespace, \<open>world\<close> everything outside the interpreter
  (files, network, processes), \<open>log\<close> the library calls made so far, each with the
  exception it raised.
\<close>

record 'w state =
  globals :: "string \<rightharpoonup> pyval"
  world :: 'w
  log :: "(call \<times> string option) list"

type_synonym 'w stmt = "'w state \<Rightarrow> error option \<times> 'w state"

definition lookup :: "string \<Rightarrow> 'w state \<Rightarrow> error + pyval" where
  "lookup x s = (case globals s x of None \<Rightarrow> Inl (NameError x) | Some v \<Rightarrow> Inr v)"

definition bind_name :: "string \<Rightarrow> pyval \<Rightarrow> 'w state \<Rightarrow> 'w state" where
  "bind_name x v s = s\<lparr>globals := (globals s)(x \<mapsto> v)\<rparr>"

datatype expr = Name string | StrLit string

fun eval :: "expr \<Rightarrow> 'w state \<Rightarrow> error + pyval" where
  "eval (Name x) s = lookup x s"
| "eval (StrLit a) s = Inr (Str a)"

text \<open>The method \<open>m\<close> of a builder: any other object has no such attribute.\<close>

fun builder_of :: "string \<Rightarrow> pyval \<Rightarrow> error + builder" where
  "builder_of m (BuilderV b) = Inr b"
| "builder_of m v = Inl (AttributeError m)"

text \<open>
  \<open>need r k\<close> continues with the value of \<open>r\<close>, or raises its error in the unchanged
  state. \<open>calling L c k\<close> makes the library call \<open>c\<close>, logs it, and continues with the
  state update \<open>k\<close> unless the call raised.
\<close>

definition need :: "error + 'a \<Rightarrow> ('a \<Rightarrow> 'w stmt) \<Rightarrow> 'w stmt" where
  "need r k s = (case r of Inl e \<Rightarrow> (Some e, s) | Inr v \<Rightarrow> k v s)"

definition calling :: "'w library \<Rightarrow> call \<Rightarrow> ('w state \<Rightarrow> 'w state) \<Rightarrow> 'w stmt" where
  "calling L c k s =
     (case L c (world s) of
        (r, w') \<Rightarrow>
          (let s' = s\<lparr>world := w', log := log s @ [(c, r)]\<rparr>
           in case r of Some x \<Rightarrow> (Some (Raised x), s') | None \<Rightarrow> (None, k s')))"

subsection \<open>The statements\<close>

text \<open>
  The object a library module exports under a name. The source imports \<^verbatim>\<open>START\<close> and
  \<^verbatim>\<open>END\<close> from \<^verbatim>\<open>langgraph.graph\<close> and passes them where node names are expected; the
  repository does not contain the library, and its specification only calls them the fixed
  start and end sentinels. The library defines them as the reserved node names
  \<^verbatim>\<open>__start__\<close> and \<^verbatim>\<open>__end__\<close>: they are strings, so a node name can be compared with
  them and could collide with them. Every other export is opaque.
\<close>

definition START :: pyval where
  "START = Str ''__start__''"

definition END :: pyval where
  "END = Str ''__end__''"

definition exported :: "string \<Rightarrow> string \<Rightarrow> pyval" where
  "exported m x =
     (if m = ''langgraph.graph'' \<and> x = ''START'' then START
      else if m = ''langgraph.graph'' \<and> x = ''END'' then END
      else Imported m x)"

text \<open>\<^verbatim>\<open>from m import x1, ..., xn\<close>\<close>

definition import_from :: "'w library \<Rightarrow> string \<Rightarrow> string list \<Rightarrow> 'w stmt" where
  "import_from L m xs =
     calling L (ImportFrom m xs) (fold (\<lambda>x. bind_name x (exported m x)) xs)"

text \<open>
  \<^verbatim>\<open>class AgentState(TypedDict): messages: Annotated[Sequence[BaseMessage], add_messages]\<close>
\<close>

definition AgentState :: "'w library \<Rightarrow> 'w stmt" where
  "AgentState L s =
     need (lookup ''TypedDict'' s) (\<lambda>td.
     need (lookup ''Annotated'' s) (\<lambda>an.
     need (lookup ''Sequence'' s) (\<lambda>sq.
     need (lookup ''BaseMessage'' s) (\<lambda>bm.
     need (lookup ''add_messages'' s) (\<lambda>am.
       (let fields = [(''messages'', Subscript an [Subscript sq [bm], am])]
        in calling L (DefineClass ''AgentState'' [td] fields)
             (bind_name ''AgentState'' (ClassObj ''AgentState'' [td] fields)))))))) s"

text \<open>\<^verbatim>\<open>workflow = StateGraph(AgentState)\<close>\<close>

definition workflow :: "'w library \<Rightarrow> 'w stmt" where
  "workflow L s =
     need (lookup ''StateGraph'' s) (\<lambda>ctor.
     need (lookup ''AgentState'' s) (\<lambda>cls.
       if ctor = Imported ''langgraph.graph'' ''StateGraph''
       then calling L (NewStateGraph cls) (bind_name ''workflow'' (BuilderV (Builder cls [] [])))
       else (\<lambda>s. (Some (TypeError ''StateGraph''), s)))) s"

text \<open>\<^verbatim>\<open>workflow.add_node(n, f)\<close>, where \<open>f\<close> is a name\<close>

definition add_node :: "'w library \<Rightarrow> string \<Rightarrow> string \<Rightarrow> 'w stmt" where
  "add_node L n f s =
     need (lookup ''workflow'' s) (\<lambda>wf.
     need (builder_of ''add_node'' wf) (\<lambda>b.
     need (lookup f s) (\<lambda>action.
       calling L (AddNode b n action)
         (bind_name ''workflow''
            (BuilderV (Builder (shape b) (nodes b @ [(n, action)]) (edges b))))))) s"

text \<open>\<^verbatim>\<open>workflow.add_edge(a, b)\<close>\<close>

definition add_edge :: "'w library \<Rightarrow> expr \<Rightarrow> expr \<Rightarrow> 'w stmt" where
  "add_edge L a c s =
     need (lookup ''workflow'' s) (\<lambda>wf.
     need (builder_of ''add_edge'' wf) (\<lambda>b.
     need (eval a s) (\<lambda>start_key.
     need (eval c s) (\<lambda>end_key.
       calling L (AddEdge b start_key end_key)
         (bind_name ''workflow''
            (BuilderV (Builder (shape b) (nodes b) (edges b @ [(start_key, end_key)])))))))) s"

text \<open>\<^verbatim>\<open>graph = workflow.compile()\<close>\<close>

definition graph :: "'w library \<Rightarrow> 'w stmt" where
  "graph L s =
     need (lookup ''workflow'' s) (\<lambda>wf.
     need (builder_of ''compile'' wf) (\<lambda>b.
       calling L (Compile b) (bind_name ''graph'' (GraphV b)))) s"

subsection \<open>The module\<close>

text \<open>Statements run in order; the first exception ends the run, in the state it left.\<close>

fun exec :: "'w stmt list \<Rightarrow> 'w stmt" where
  "exec [] s = (None, s)"
| "exec (c # cs) s =
     (case c s of (Some e, s') \<Rightarrow> (Some e, s') | (None, s') \<Rightarrow> exec cs s')"

definition module_body :: "'w library \<Rightarrow> 'w stmt list" where
  "module_body L =
     [import_from L ''typing'' [''Annotated'', ''Sequence'', ''TypedDict''],
      import_from L ''langchain_core.messages'' [''BaseMessage''],
      import_from L ''langgraph.graph'' [''StateGraph'', ''START'', ''END''],
      import_from L ''langgraph.graph.message'' [''add_messages''],
      AgentState L,
      workflow L,
      add_node L ''retrieve'' ''retrieve_node'',
      add_node L ''generate'' ''generate_node'',
      add_edge L (Name ''START'') (StrLit ''retrieve''),
      add_edge L (StrLit ''retrieve'') (StrLit ''generate''),
      add_edge L (StrLit ''generate'') (Name ''END''),
      graph L]"

text \<open>
  Evaluating the module in the namespace \<open>g0\<close> and the world \<open>w\<close>: the exception that
  ended the run (if any) and the final state.
\<close>

definition run_module :: "'w library \<Rightarrow> (string \<rightharpoonup> pyval) \<Rightarrow> 'w \<Rightarrow> error option \<times> 'w state" where
  "run_module L g0 w = exec (module_body L) \<lparr>globals = g0, world = w, log = []\<rparr>"

subsection \<open>What the statements bind and call, in closed form\<close>

text \<open>
  The annotation of the field \<^verbatim>\<open>messages\<close> and the class the fifth statement creates.
\<close>

definition messages_annotation :: pyval where
  "messages_annotation =
     Subscript (Imported ''typing'' ''Annotated'')
       [Subscript (Imported ''typing'' ''Sequence'')
          [Imported ''langchain_core.messages'' ''BaseMessage''],
        Imported ''langgraph.graph.message'' ''add_messages'']"

definition AgentState_class :: pyval where
  "AgentState_class =
     ClassObj ''AgentState'' [Imported ''typing'' ''TypedDict'']
       [(''messages'', messages_annotation)]"

definition declared_nodes :: "pyval \<Rightarrow> pyval \<Rightarrow> (string \<times> pyval) list" where
  "declared_nodes f g = [(''retrieve'', f), (''generate'', g)]"

definition declared_edges :: "(pyval \<times> pyval) list" where
  "declared_edges =
     [(START, Str ''retrieve''), (Str ''retrieve'', Str ''generate''), (Str ''generate'', END)]"

text \<open>The builder after its first \<open>j\<close> registrations, with callbacks \<open>f\<close> and \<open>g\<close>.\<close>

definition registered :: "nat \<Rightarrow> pyval \<Rightarrow> pyval \<Rightarrow> builder" where
  "registered j f g =
     Builder AgentState_class (take j (declared_nodes f g)) (take (j - 2) declared_edges)"

text \<open>The library call of each statement, and what each statement binds when it succeeds.\<close>

definition calls :: "pyval \<Rightarrow> pyval \<Rightarrow> call list" where
  "calls f g =
     [ImportFrom ''typing'' [''Annotated'', ''Sequence'', ''TypedDict''],
      ImportFrom ''langchain_core.messages'' [''BaseMessage''],
      ImportFrom ''langgraph.graph'' [''StateGraph'', ''START'', ''END''],
      ImportFrom ''langgraph.graph.message'' [''add_messages''],
      DefineClass ''AgentState'' [Imported ''typing'' ''TypedDict'']
        [(''messages'', messages_annotation)],
      NewStateGraph AgentState_class,
      AddNode (registered 0 f g) ''retrieve'' f,
      AddNode (registered 1 f g) ''generate'' g,
      AddEdge (registered 2 f g) START (Str ''retrieve''),
      AddEdge (registered 3 f g) (Str ''retrieve'') (Str ''generate''),
      AddEdge (registered 4 f g) (Str ''generate'') END,
      Compile (registered 5 f g)]"

definition effects ::
  "pyval \<Rightarrow> pyval \<Rightarrow> ((string \<rightharpoonup> pyval) \<Rightarrow> (string \<rightharpoonup> pyval)) list" where
  "effects f g =
     [\<lambda>m. m(''Annotated'' \<mapsto> Imported ''typing'' ''Annotated'',
            ''Sequence'' \<mapsto> Imported ''typing'' ''Sequence'',
            ''TypedDict'' \<mapsto> Imported ''typing'' ''TypedDict''),
      \<lambda>m. m(''BaseMessage'' \<mapsto> Imported ''langchain_core.messages'' ''BaseMessage''),
      \<lambda>m. m(''StateGraph'' \<mapsto> Imported ''langgraph.graph'' ''StateGraph'',
            ''START'' \<mapsto> START, ''END'' \<mapsto> END),
      \<lambda>m. m(''add_messages'' \<mapsto> Imported ''langgraph.graph.message'' ''add_messages''),
      \<lambda>m. m(''AgentState'' \<mapsto> AgentState_class),
      \<lambda>m. m(''workflow'' \<mapsto> BuilderV (registered 0 f g)),
      \<lambda>m. m(''workflow'' \<mapsto> BuilderV (registered 1 f g)),
      \<lambda>m. m(''workflow'' \<mapsto> BuilderV (registered 2 f g)),
      \<lambda>m. m(''workflow'' \<mapsto> BuilderV (registered 3 f g)),
      \<lambda>m. m(''workflow'' \<mapsto> BuilderV (registered 4 f g)),
      \<lambda>m. m(''workflow'' \<mapsto> BuilderV (registered 5 f g)),
      \<lambda>m. m(''graph'' \<mapsto> GraphV (registered 5 f g))]"

text \<open>The names the module binds.\<close>

definition module_names :: "string list" where
  "module_names =
     [''Annotated'', ''Sequence'', ''TypedDict'', ''BaseMessage'', ''StateGraph'', ''START'',
      ''END'', ''add_messages'', ''AgentState'', ''workflow'', ''graph'']"

text \<open>The namespace after \<open>k\<close> statements have succeeded, starting from \<open>g0\<close>.\<close>

definition stage ::
  "nat \<Rightarrow> (string \<rightharpoonup> pyval) \<Rightarrow> pyval \<Rightarrow> pyval \<Rightarrow> (string \<rightharpoonup> pyval)" where
  "stage k g0 f g = fold (\<lambda>h. h) (take k (effects f g)) g0"

definition oks :: "call list \<Rightarrow> (call \<times> string option) list" where
  "oks cs = map (\<lambda>c. (c, None)) cs"

text \<open>The callbacks the surrounding namespace supplies, where it does.\<close>

definition retrieve_callback :: "(string \<rightharpoonup> pyval) \<Rightarrow> pyval" where
  "retrieve_callback g0 = the (g0 ''retrieve_node'')"

definition generate_callback :: "(string \<rightharpoonup> pyval) \<Rightarrow> pyval" where
  "generate_callback g0 = the (g0 ''generate_node'')"

text \<open>
  \<open>at k g0 s\<close>: the first \<open>k\<close> statements have succeeded. \<open>raised_at k g0 r s\<close>: they
  have, and the library call of the next statement raised. \<open>failed g0 r s\<close>: the run
  ended with the exception \<open>r\<close> in state \<open>s\<close>, by a library exception or by an unbound
  callback name.
\<close>

definition at :: "nat \<Rightarrow> (string \<rightharpoonup> pyval) \<Rightarrow> 'w state \<Rightarrow> bool" where
  "at k g0 s \<longleftrightarrow>
     (6 < k \<longrightarrow> g0 ''retrieve_node'' \<noteq> None) \<and> (7 < k \<longrightarrow> g0 ''generate_node'' \<noteq> None) \<and>
     globals s = stage k g0 (retrieve_callback g0) (generate_callback g0) \<and>
     log s = oks (take k (calls (retrieve_callback g0) (generate_callback g0)))"

definition raised_at :: "nat \<Rightarrow> (string \<rightharpoonup> pyval) \<Rightarrow> error option \<Rightarrow> 'w state \<Rightarrow> bool" where
  "raised_at k g0 r s \<longleftrightarrow>
     (5 < k \<longrightarrow> g0 ''retrieve_node'' \<noteq> None) \<and> (6 < k \<longrightarrow> g0 ''generate_node'' \<noteq> None) \<and>
     (\<exists>x. r = Some (Raised x) \<and>
          globals s = stage k g0 (retrieve_callback g0) (generate_callback g0) \<and>
          log s = oks (take k (calls (retrieve_callback g0) (generate_callback g0))) @
                  [(calls (retrieve_callback g0) (generate_callback g0) ! k, Some x)])"

definition failed :: "(string \<rightharpoonup> pyval) \<Rightarrow> error option \<Rightarrow> 'w state \<Rightarrow> bool" where
  "failed g0 r s \<longleftrightarrow>
     (\<exists>k<12. raised_at k g0 r s) \<or>
     (g0 ''retrieve_node'' = None \<and> r = Some (NameError ''retrieve_node'') \<and> at 6 g0 s) \<or>
     (g0 ''retrieve_node'' \<noteq> None \<and> g0 ''generate_node'' = None \<and>
      r = Some (NameError ''generate_node'') \<and> at 7 g0 s)"

text \<open>
  \<open>triple P c Q E\<close>: from a state satisfying \<open>P\<close>, the statement \<open>c\<close> either succeeds
  in a state satisfying \<open>Q\<close> or raises \<open>r\<close> in a state satisfying \<open>E r\<close>.
\<close>

definition triple ::
  "('w state \<Rightarrow> bool) \<Rightarrow> 'w stmt \<Rightarrow> ('w state \<Rightarrow> bool) \<Rightarrow>
   (error option \<Rightarrow> 'w state \<Rightarrow> bool) \<Rightarrow> bool" where
  "triple P c Q E \<longleftrightarrow>
     (\<forall>s r s'. P s \<longrightarrow> c s = (r, s') \<longrightarrow> (r = None \<and> Q s') \<or> (r \<noteq> None \<and> E r s'))"

subsection \<open>Observations on a run\<close>

text \<open>
  The edges of the linear chain that leads from \<open>a\<close> through the named nodes \<open>ns\<close>, in
  order, to \<open>z\<close>.
\<close>

fun chain :: "pyval \<Rightarrow> string list \<Rightarrow> pyval \<Rightarrow> (pyval \<times> pyval) list" where
  "chain a [] z = [(a, z)]"
| "chain a (n # ns) z = (a, Str n) # chain (Str n) ns z"

text \<open>What a library call registers on the builder, if anything.\<close>

datatype registration = Node string | Edge pyval pyval

fun registration_of :: "call \<Rightarrow> registration option" where
  "registration_of (AddNode b n a) = Some (Node n)"
| "registration_of (AddEdge b u v) = Some (Edge u v)"
| "registration_of c = None"

definition registrations :: "(call \<times> string option) list \<Rightarrow> registration list" where
  "registrations l = List.map_filter registration_of (map fst l)"

text \<open>The kind of step a library call belongs to.\<close>

datatype step =
  Importing | DefiningState | ConstructingBuilder | RegisteringNode | RegisteringEdge | Compiling

fun step_of :: "call \<Rightarrow> step" where
  "step_of (ImportFrom m xs) = Importing"
| "step_of (DefineClass n bs fs) = DefiningState"
| "step_of (NewStateGraph c) = ConstructingBuilder"
| "step_of (AddNode b n a) = RegisteringNode"
| "step_of (AddEdge b u v) = RegisteringEdge"
| "step_of (Compile b) = Compiling"

definition steps :: "(call \<times> string option) list \<Rightarrow> step list" where
  "steps l = map (\<lambda>e. step_of (fst e)) l"

text \<open>
  An edge endpoint is acceptable on the builder \<open>b\<close> when it is a sentinel or the name of
  a node registered on \<open>b\<close>. A registration is well formed when a new node has a fresh
  name that is no sentinel, and when both endpoints of a new edge are acceptable.
\<close>

definition endpoint_ok :: "builder \<Rightarrow> pyval \<Rightarrow> bool" where
  "endpoint_ok b u \<longleftrightarrow> u \<in> set ([START, END] @ map (\<lambda>p. Str (fst p)) (nodes b))"

fun well_formed :: "call \<Rightarrow> bool" where
  "well_formed (AddNode b n a) =
     (n \<notin> set (map fst (nodes b)) \<and> Str n \<noteq> START \<and> Str n \<noteq> END)"
| "well_formed (AddEdge b u v) = (endpoint_ok b u \<and> endpoint_ok b v)"
| "well_formed c = True"



subsection \<open>Concrete libraries and namespaces\<close>

text \<open>
  A library that never raises and touches nothing, one that refuses to compile, and one
  whose every call leaves a trace in the world (as loading a module from disk does, here
  a counter); the empty namespace the module is given as it stands, and one in which a
  user has defined the two callbacks.
\<close>

definition quiet_library :: "nat library" where
  "quiet_library c w = (None, w)"

definition strict_library :: "nat library" where
  "strict_library c w = (case c of Compile b \<Rightarrow> Some ''ValueError'' | _ \<Rightarrow> None, w)"


definition bare_namespace :: "string \<rightharpoonup> pyval" where
  "bare_namespace = Map.empty"

definition user_namespace :: "string \<rightharpoonup> pyval" where
  "user_namespace =
     [''retrieve_node'' \<mapsto> Function ''retrieve_node'',
      ''generate_node'' \<mapsto> Function ''generate_node'']"

text \<open>The steps of the module, in the order of its statements.\<close>

definition module_steps :: "step list" where
  "module_steps =
     [Importing, Importing, Importing, Importing, DefiningState, ConstructingBuilder,
      RegisteringNode, RegisteringNode, RegisteringEdge, RegisteringEdge, RegisteringEdge,
      Compiling]"

section \<open>Symbolic execution of the module\<close>

lemmas stmt_defs = import_from_def exported_def AgentState_def workflow_def add_node_def add_edge_def
  graph_def need_def calling_def lookup_def bind_name_def Let_def

lemmas data_defs = at_def raised_at_def stage_def effects_def calls_def oks_def registered_def
  declared_nodes_def declared_edges_def START_def END_def AgentState_class_def
  messages_annotation_def retrieve_callback_def generate_callback_def

lemma triple_Nil: "triple P (exec []) P E"
  by (simp add: triple_def)

lemma triple_Cons:
  assumes "triple P c Q E" and "triple Q (exec cs) R E"
  shows "triple P (exec (c # cs)) R E"
  unfolding triple_def
proof (intro allI impI)
  fix s r s'
  assume P: "P s" and run: "exec (c # cs) s = (r, s')"
  obtain r1 s1 where c: "c s = (r1, s1)" by force
  from assms(1) P c have alt: "(r1 = None \<and> Q s1) \<or> (r1 \<noteq> None \<and> E r1 s1)"
    by (simp add: triple_def)
  show "(r = None \<and> R s') \<or> (r \<noteq> None \<and> E r s')"
  proof (cases r1)
    case None
    with c run have "exec cs s1 = (r, s')" by simp
    moreover from alt None have "Q s1" by simp
    ultimately show ?thesis using assms(2) by (simp add: triple_def)
  next
    case (Some e)
    with c run have "r = r1" "s' = s1" by simp_all
    with alt Some show ?thesis by simp
  qed
qed

lemma raised_failed: "k < 12 \<Longrightarrow> raised_at k g0 r s \<Longrightarrow> r \<noteq> None \<and> failed g0 r s"
  by (auto simp: failed_def raised_at_def)

lemma step_lemma:
  assumes "\<And>s r s'. at k g0 s \<Longrightarrow> c s = (r, s') \<Longrightarrow>
             (r = None \<and> at k' g0 s') \<or> raised_at k g0 r s'"
    and "k < 12"
  shows "triple (at k g0) c (at k' g0) (failed g0)"
  unfolding triple_def using assms raised_failed by blast

lemma step0:
  "triple (at 0 g0) (import_from L ''typing'' [''Annotated'', ''Sequence'', ''TypedDict'']) (at 1 g0) (failed g0)"
  by (rule step_lemma) (auto simp: stmt_defs data_defs split: prod.splits option.splits)

lemma step1:
  "triple (at 1 g0) (import_from L ''langchain_core.messages'' [''BaseMessage'']) (at 2 g0) (failed g0)"
  by (rule step_lemma) (auto simp: stmt_defs data_defs split: prod.splits option.splits)

lemma step2:
  "triple (at 2 g0) (import_from L ''langgraph.graph'' [''StateGraph'', ''START'', ''END'']) (at 3 g0) (failed g0)"
  by (rule step_lemma) (auto simp: stmt_defs data_defs split: prod.splits option.splits)

lemma step3:
  "triple (at 3 g0) (import_from L ''langgraph.graph.message'' [''add_messages'']) (at 4 g0) (failed g0)"
  by (rule step_lemma) (auto simp: stmt_defs data_defs split: prod.splits option.splits)

lemma step4:
  "triple (at 4 g0) (AgentState L) (at 5 g0) (failed g0)"
  by (rule step_lemma) (auto simp: stmt_defs data_defs split: prod.splits option.splits)

lemma step5:
  "triple (at 5 g0) (workflow L) (at 6 g0) (failed g0)"
  by (rule step_lemma) (auto simp: stmt_defs data_defs split: prod.splits option.splits)

lemma step8:
  "triple (at 8 g0) (add_edge L (Name ''START'') (StrLit ''retrieve'')) (at 9 g0) (failed g0)"
  by (rule step_lemma) (auto simp: stmt_defs data_defs split: prod.splits option.splits)

lemma step9:
  "triple (at 9 g0) (add_edge L (StrLit ''retrieve'') (StrLit ''generate'')) (at 10 g0) (failed g0)"
  by (rule step_lemma) (auto simp: stmt_defs data_defs split: prod.splits option.splits)

lemma step10:
  "triple (at 10 g0) (add_edge L (StrLit ''generate'') (Name ''END'')) (at 11 g0) (failed g0)"
  by (rule step_lemma) (auto simp: stmt_defs data_defs split: prod.splits option.splits)

lemma step11:
  "triple (at 11 g0) (graph L) (at 12 g0) (failed g0)"
  by (rule step_lemma) (auto simp: stmt_defs data_defs split: prod.splits option.splits)

lemma step6:
  "triple (at 6 g0) (add_node L ''retrieve'' ''retrieve_node'') (at 7 g0) (failed g0)"
proof (cases "g0 ''retrieve_node''")
  case None
  then show ?thesis
    by (auto simp: triple_def failed_def stmt_defs data_defs split: prod.splits option.splits)
next
  case (Some f)
  then show ?thesis
    by (intro step_lemma) (auto simp: stmt_defs data_defs split: prod.splits option.splits)
qed

lemma step7:
  "triple (at 7 g0) (add_node L ''generate'' ''generate_node'') (at 8 g0) (failed g0)"
proof (cases "g0 ''generate_node''")
  case None
  then show ?thesis
    by (auto simp: triple_def failed_def stmt_defs data_defs split: prod.splits option.splits)
next
  case (Some f)
  then show ?thesis
    by (intro step_lemma) (auto simp: stmt_defs data_defs split: prod.splits option.splits)
qed

lemma module_body_triple:
  "triple (at 0 g0) (exec (module_body L)) (at 12 g0) (failed g0)"
  unfolding module_body_def
  by (intro triple_Cons [OF step0] triple_Cons [OF step1] triple_Cons [OF step2]
      triple_Cons [OF step3] triple_Cons [OF step4] triple_Cons [OF step5]
      triple_Cons [OF step6] triple_Cons [OF step7] triple_Cons [OF step8]
      triple_Cons [OF step9] triple_Cons [OF step10] triple_Cons [OF step11] triple_Nil)

lemma run_module_outcome:
  assumes "run_module L g0 w = (r, s)"
  shows "(r = None \<and> at 12 g0 s) \<or> (r \<noteq> None \<and> failed g0 r s)"
proof -
  have "at 0 g0 \<lparr>globals = g0, world = w, log = []\<rparr>"
    by (simp add: at_def stage_def oks_def)
  with module_body_triple [of g0 L] assms show ?thesis
    unfolding triple_def run_module_def by blast
qed

section \<open>Properties of the closed forms\<close>

lemma fold_frame:
  "(\<And>h m. h \<in> set hs \<Longrightarrow> h m x = m x) \<Longrightarrow> fold (\<lambda>h. h) hs m x = m x"
  by (induction hs arbitrary: m) simp_all

lemma stage_frame:
  assumes "x \<notin> set module_names"
  shows "stage k g0 f g x = g0 x"
  unfolding stage_def
proof (rule fold_frame)
  fix h m assume "h \<in> set (take k (effects f g))"
  then have "h \<in> set (effects f g)" by (rule in_set_takeD)
  with assms show "h m x = m x"
    by (auto simp: effects_def module_names_def)
qed

lemma stage_graph:
  assumes "k < 12"
  shows "stage k g0 f g ''graph'' = g0 ''graph''"
  unfolding stage_def
proof (rule fold_frame)
  fix h m assume "h \<in> set (take k (effects f g))"
  moreover from assms have "set (take k (effects f g)) \<subseteq> set (take 11 (effects f g))"
    by (intro set_take_subset_set_take) simp
  ultimately have "h \<in> set (take 11 (effects f g))" by blast
  then show "h m ''graph'' = m ''graph''"
    by (auto simp: effects_def)
qed

lemma stage_AgentState:
  assumes "5 \<le> k"
  shows "stage k g0 f g ''AgentState'' = Some AgentState_class"
proof -
  from assms obtain j where k: "k = 5 + j" by (auto simp: le_iff_add)
  have split: "take k (effects f g) = take 5 (effects f g) @ take j (drop 5 (effects f g))"
    unfolding k by (rule take_add)
  have base: "fold (\<lambda>h. h) (take 5 (effects f g)) g0 ''AgentState'' = Some AgentState_class"
    by (simp add: effects_def)
  have "fold (\<lambda>h. h) (take j (drop 5 (effects f g)))
          (fold (\<lambda>h. h) (take 5 (effects f g)) g0) ''AgentState'' =
        fold (\<lambda>h. h) (take 5 (effects f g)) g0 ''AgentState''"
  proof (rule fold_frame)
    fix h m assume "h \<in> set (take j (drop 5 (effects f g)))"
    then have "h \<in> set (drop 5 (effects f g))" by (rule in_set_takeD)
    then show "h m ''AgentState'' = m ''AgentState''"
      by (auto simp: effects_def)
  qed
  with base show ?thesis
    by (simp add: stage_def split)
qed

lemma stage12:
  "stage 12 g0 f g ''workflow'' = Some (BuilderV (registered 5 f g))"
  "stage 12 g0 f g ''graph'' = Some (GraphV (registered 5 f g))"
  by (simp_all add: stage_def effects_def)

lemma stage6:
  "stage 6 g0 f g ''workflow'' = Some (BuilderV (Builder AgentState_class [] []))"
  by (simp add: stage_def effects_def registered_def)

lemma registered5:
  "registered 5 f g =
     Builder AgentState_class [(''retrieve'', f), (''generate'', g)]
       [(START, Str ''retrieve''), (Str ''retrieve'', Str ''generate''), (Str ''generate'', END)]"
  by (simp add: registered_def declared_nodes_def declared_edges_def)

lemma length_calls: "length (calls f g) = 12"
  by (simp add: calls_def)

lemma not_in_oks: "(c, Some x) \<notin> set (oks cs)"
  by (auto simp: oks_def)

lemma in_oks: "(c, y) \<in> set (oks cs) \<Longrightarrow> c \<in> set cs"
  by (auto simp: oks_def)

lemma map_fst_oks: "map fst (oks cs) = cs"
  by (simp add: oks_def comp_def)

lemma early_calls:
  assumes "k \<le> 4" and "c \<in> set (take k (calls f g))"
  shows "\<exists>m xs. c = ImportFrom m xs"
proof -
  from assms(1) have "set (take k (calls f g)) \<subseteq> set (take 4 (calls f g))"
    by (rule set_take_subset_set_take)
  with assms(2) have "c \<in> set (take 4 (calls f g))" by blast
  then show ?thesis by (auto simp: calls_def)
qed

text \<open>The calls a run has logged are an initial segment of the calls of the module.\<close>

lemma log_prefix:
  assumes "run_module L g0 w = (r, s)"
  shows "prefix (map fst (log s)) (calls (retrieve_callback g0) (generate_callback g0))"
proof -
  let ?cs = "calls (retrieve_callback g0) (generate_callback g0)"
  have raised: "prefix (map fst (log s)) ?cs" if "k < 12" and "raised_at k g0 r s" for k
  proof -
    from that(2) obtain x where "log s = oks (take k ?cs) @ [(?cs ! k, Some x)]"
      by (auto simp: raised_at_def)
    then have "map fst (log s) = take k ?cs @ [?cs ! k]"
      by (simp add: map_fst_oks)
    also have "\<dots> = take (Suc k) ?cs"
      using that(1) by (simp add: take_Suc_conv_app_nth length_calls)
    finally show ?thesis by (simp add: take_is_prefix)
  qed
  have at: "prefix (map fst (log s)) ?cs" if "at k g0 s" for k
    using that by (simp add: at_def map_fst_oks take_is_prefix)
  from run_module_outcome [OF assms] show ?thesis
    using raised at by (auto simp: failed_def)
qed

lemma map_filter_prefix:
  "prefix xs ys \<Longrightarrow> prefix (List.map_filter h xs) (List.map_filter h ys)"
  by (auto simp: prefix_def map_filter_def)

lemma map_prefix: "prefix xs ys \<Longrightarrow> prefix (map h xs) (map h ys)"
  by (auto simp: prefix_def)

lemma registrations_calls:
  "List.map_filter registration_of (calls f g) =
     [Node ''retrieve'', Node ''generate'', Edge START (Str ''retrieve''),
      Edge (Str ''retrieve'') (Str ''generate''), Edge (Str ''generate'') END]"
  by (simp add: calls_def map_filter_simps)

lemma steps_calls:
  "map step_of (calls f g) =
     [Importing, Importing, Importing, Importing, DefiningState, ConstructingBuilder,
      RegisteringNode, RegisteringNode, RegisteringEdge, RegisteringEdge, RegisteringEdge,
      Compiling]"
  by (simp add: calls_def)

lemma well_formed_calls: "c \<in> set (calls f g) \<Longrightarrow> well_formed c"
  by (auto simp: calls_def registered_def declared_nodes_def declared_edges_def endpoint_ok_def
      START_def END_def)














lemma reserved_names_rejected:
  "\<not> well_formed (AddNode b ''__start__'' a)" and "\<not> well_formed (AddNode b ''__end__'' a)"
  by (simp_all add: START_def END_def)


text \<open>The four ways a run can end.\<close>

lemma run_cases [consumes 1, case_names completed raised unbound_retrieve unbound_generate]:
  assumes "run_module L g0 w = (r, s)"
  obtains
    (completed) f g where "r = None"
      and "g0 ''retrieve_node'' = Some f" and "g0 ''generate_node'' = Some g"
      and "globals s = stage 12 g0 f g" and "log s = oks (calls f g)"
  | (raised) k x f g where "k < 12" and "r = Some (Raised x)"
      and "5 < k \<Longrightarrow> g0 ''retrieve_node'' = Some f"
      and "6 < k \<Longrightarrow> g0 ''generate_node'' = Some g"
      and "globals s = stage k g0 f g"
      and "log s = oks (take k (calls f g)) @ [(calls f g ! k, Some x)]"
  | (unbound_retrieve) f g where "r = Some (NameError ''retrieve_node'')"
      and "g0 ''retrieve_node'' = None"
      and "globals s = stage 6 g0 f g" and "log s = oks (take 6 (calls f g))"
  | (unbound_generate) f g where "r = Some (NameError ''generate_node'')"
      and "g0 ''retrieve_node'' = Some f" and "g0 ''generate_node'' = None"
      and "globals s = stage 7 g0 f g" and "log s = oks (take 7 (calls f g))"
proof -
  let ?f = "retrieve_callback g0" and ?g = "generate_callback g0"
  have f: "g0 ''retrieve_node'' = Some ?f" if "g0 ''retrieve_node'' \<noteq> None"
    using that by (auto simp: retrieve_callback_def)
  have g: "g0 ''generate_node'' = Some ?g" if "g0 ''generate_node'' \<noteq> None"
    using that by (auto simp: generate_callback_def)
  from run_module_outcome [OF assms] consider
      (a) "r = None" "at 12 g0 s"
    | (b) k where "k < 12" "raised_at k g0 r s"
    | (c) "g0 ''retrieve_node'' = None" "r = Some (NameError ''retrieve_node'')" "at 6 g0 s"
    | (d) "g0 ''retrieve_node'' \<noteq> None" "g0 ''generate_node'' = None"
          "r = Some (NameError ''generate_node'')" "at 7 g0 s"
    by (auto simp: failed_def)
  then show thesis
  proof cases
    case a
    from a(2) have "log s = oks (calls ?f ?g)"
      by (simp add: at_def length_calls)
    with a show thesis
      using completed [of ?f ?g] f g by (simp add: at_def)
  next
    case b
    from b(2) obtain x where "r = Some (Raised x)"
      and "globals s = stage k g0 ?f ?g"
      and "log s = oks (take k (calls ?f ?g)) @ [(calls ?f ?g ! k, Some x)]"
      by (auto simp: raised_at_def)
    moreover from b(2) have "5 < k \<Longrightarrow> g0 ''retrieve_node'' = Some ?f"
      and "6 < k \<Longrightarrow> g0 ''generate_node'' = Some ?g"
      using f g by (simp_all add: raised_at_def)
    ultimately show thesis
      using raised [of k x ?f ?g] b(1) by blast
  next
    case c
    then show thesis
      using unbound_retrieve [of ?f ?g] by (simp add: at_def)
  next
    case d
    then show thesis
      using unbound_generate [of ?f ?g] f by (simp add: at_def)
  qed
qed

lemma raised_prefix:
  assumes "k < 12"
  shows "map fst (oks (take k (calls f g)) @ [(calls f g ! k, y)]) = take (Suc k) (calls f g)"
  using assms by (simp add: map_fst_oks take_Suc_conv_app_nth length_calls)

text \<open>Concrete runs.\<close>

lemmas run_defs = run_module_def module_body_def stmt_defs

lemma quiet_user_run: "fst (run_module quiet_library user_namespace 0) = None"
  by (simp add: run_defs quiet_library_def user_namespace_def)

lemma quiet_bare_run:
  "fst (run_module quiet_library bare_namespace 0) = Some (NameError ''retrieve_node'')"
  by (simp add: run_defs quiet_library_def bare_namespace_def)

lemma strict_user_run:
  "fst (run_module strict_library user_namespace 0) = Some (Raised ''ValueError'')"
  by (simp add: run_defs strict_library_def user_namespace_def)

lemma run_collapse: "fst (run_module L g0 w) = r \<Longrightarrow> run_module L g0 w = (r, snd (run_module L g0 w))"
  by (simp add: prod_eq_iff)

section \<open>The claims\<close>

text \<open>
  C1. The script declares a graph with exactly two named nodes, \<open>retrieve\<close> and
  \<open>generate\<close>, and exactly three directed edges, from START to \<open>retrieve\<close>, from
  \<open>retrieve\<close> to \<open>generate\<close> and from \<open>generate\<close> to END: one linear chain from the start
  sentinel to the end sentinel, with no other node or edge. In every run, whatever the
  library does and whatever the surrounding namespace binds, the registrations made are an
  initial segment of these five; a run that completes has made all of them, on a builder
  that then holds exactly the two nodes and the three edges of the chain.
\<close>

theorem declared_graph_is_linear_chain:
  assumes "run_module L g0 w = (r, s)"
  shows "prefix (registrations (log s))
           [Node ''retrieve'', Node ''generate'', Edge START (Str ''retrieve''),
            Edge (Str ''retrieve'') (Str ''generate''), Edge (Str ''generate'') END] \<and>
         (r = None \<longrightarrow>
            (\<exists>b f g. g0 ''retrieve_node'' = Some f \<and> g0 ''generate_node'' = Some g \<and>
               globals s ''workflow'' = Some (BuilderV b) \<and>
               shape b = AgentState_class \<and>
               nodes b = [(''retrieve'', f), (''generate'', g)] \<and>
               edges b = [(START, Str ''retrieve''), (Str ''retrieve'', Str ''generate''),
                          (Str ''generate'', END)] \<and>
               edges b = chain START (map fst (nodes b)) END \<and>
               registrations (log s) =
                 [Node ''retrieve'', Node ''generate'', Edge START (Str ''retrieve''),
                  Edge (Str ''retrieve'') (Str ''generate''), Edge (Str ''generate'') END]))"
proof (intro conjI impI)
  from log_prefix [OF assms]
  have "prefix (registrations (log s))
          (List.map_filter registration_of
             (calls (retrieve_callback g0) (generate_callback g0)))"
    unfolding registrations_def by (rule map_filter_prefix)
  then show "prefix (registrations (log s))
           [Node ''retrieve'', Node ''generate'', Edge START (Str ''retrieve''),
            Edge (Str ''retrieve'') (Str ''generate''), Edge (Str ''generate'') END]"
    by (simp add: registrations_calls)
next
  assume "r = None"
  with assms show "\<exists>b f g. g0 ''retrieve_node'' = Some f \<and> g0 ''generate_node'' = Some g \<and>
               globals s ''workflow'' = Some (BuilderV b) \<and>
               shape b = AgentState_class \<and>
               nodes b = [(''retrieve'', f), (''generate'', g)] \<and>
               edges b = [(START, Str ''retrieve''), (Str ''retrieve'', Str ''generate''),
                          (Str ''generate'', END)] \<and>
               edges b = chain START (map fst (nodes b)) END \<and>
               registrations (log s) =
                 [Node ''retrieve'', Node ''generate'', Edge START (Str ''retrieve''),
                  Edge (Str ''retrieve'') (Str ''generate''), Edge (Str ''generate'') END]"
  proof (cases rule: run_cases)
    case (completed f g)
    have "registrations (log s) =
            [Node ''retrieve'', Node ''generate'', Edge START (Str ''retrieve''),
             Edge (Str ''retrieve'') (Str ''generate''), Edge (Str ''generate'') END]"
      by (simp add: completed(5) registrations_def map_fst_oks registrations_calls)
    moreover have "globals s ''workflow'' = Some (BuilderV (registered 5 f g))"
      by (simp add: completed(4) stage12)
    ultimately show ?thesis
      using completed(2,3) by (simp add: registered5)
  qed simp_all
qed

theorem declared_graph_is_linear_chain_witness:
  "run_module quiet_library user_namespace 0 =
     (None, snd (run_module quiet_library user_namespace 0)) \<and>
   registrations (log (snd (run_module quiet_library user_namespace 0))) =
     [Node ''retrieve'', Node ''generate'', Edge START (Str ''retrieve''),
      Edge (Str ''retrieve'') (Str ''generate''), Edge (Str ''generate'') END] \<and>
   globals (snd (run_module quiet_library user_namespace 0)) ''workflow'' =
     Some (BuilderV (Builder AgentState_class
       [(''retrieve'', Function ''retrieve_node''), (''generate'', Function ''generate_node'')]
       [(START, Str ''retrieve''), (Str ''retrieve'', Str ''generate''),
        (Str ''generate'', END)]))"
proof -
  have run: "run_module quiet_library user_namespace 0 =
      (None, snd (run_module quiet_library user_namespace 0))"
    by (rule run_collapse) (rule quiet_user_run)
  from declared_graph_is_linear_chain [OF run] obtain b f g
    where "user_namespace ''retrieve_node'' = Some f"
      and "user_namespace ''generate_node'' = Some g"
      and "globals (snd (run_module quiet_library user_namespace 0)) ''workflow'' =
             Some (BuilderV b)"
      and "shape b = AgentState_class"
      and "nodes b = [(''retrieve'', f), (''generate'', g)]"
      and "edges b = [(START, Str ''retrieve''), (Str ''retrieve'', Str ''generate''),
                      (Str ''generate'', END)]"
      and "registrations (log (snd (run_module quiet_library user_namespace 0))) =
             [Node ''retrieve'', Node ''generate'', Edge START (Str ''retrieve''),
              Edge (Str ''retrieve'') (Str ''generate''), Edge (Str ''generate'') END]"
    by auto
  then show ?thesis
    using run by (cases b) (auto simp: user_namespace_def)
qed

text \<open>
  C2. The callbacks \<open>retrieve_node\<close> and \<open>generate_node\<close> named at node registration are
  defined nowhere in the source, so evaluating the module as it stands cannot produce a
  compiled graph: in a namespace that does not bind \<open>retrieve_node\<close> every run ends with
  an exception, the module never binds \<open>graph\<close> nor either callback name, and unless a
  library call raised first the exception is the name error for \<open>retrieve_node\<close>.
\<close>

theorem module_as_given_fails_with_name_error:
  assumes "g0 ''retrieve_node'' = None" and "run_module L g0 w = (r, s)"
  shows "r \<noteq> None \<and>
         (list_all (\<lambda>e. snd e = None) (log s) \<longrightarrow> r = Some (NameError ''retrieve_node'')) \<and>
         globals s ''graph'' = g0 ''graph'' \<and>
         globals s ''retrieve_node'' = None \<and>
         globals s ''generate_node'' = g0 ''generate_node''"
  using assms(2)
proof (cases rule: run_cases)
  case (completed f g)
  with assms(1) show ?thesis by simp
next
  case (raised k x f g)
  have "globals s ''graph'' = g0 ''graph''"
    by (simp add: raised(5) raised(1) stage_graph)
  moreover have "globals s ''retrieve_node'' = g0 ''retrieve_node''"
    and "globals s ''generate_node'' = g0 ''generate_node''"
    by (simp_all add: raised(5) stage_frame module_names_def)
  ultimately show ?thesis
    using assms(1) raised(2) by (simp add: raised(6))
next
  case (unbound_retrieve f g)
  have "globals s ''graph'' = g0 ''graph''"
    by (simp add: unbound_retrieve(3) stage_graph)
  moreover have "globals s ''retrieve_node'' = g0 ''retrieve_node''"
    and "globals s ''generate_node'' = g0 ''generate_node''"
    by (simp_all add: unbound_retrieve(3) stage_frame module_names_def)
  ultimately show ?thesis
    using assms(1) unbound_retrieve(1) by simp
next
  case (unbound_generate f g)
  with assms(1) show ?thesis by simp
qed

theorem module_as_given_fails_with_name_error_witness:
  "bare_namespace ''retrieve_node'' = None \<and>
   run_module quiet_library bare_namespace 0 =
     (Some (NameError ''retrieve_node''), snd (run_module quiet_library bare_namespace 0)) \<and>
   globals (snd (run_module quiet_library bare_namespace 0)) ''graph'' = None \<and>
   globals (snd (run_module quiet_library bare_namespace 0)) ''retrieve_node'' = None \<and>
   globals (snd (run_module quiet_library bare_namespace 0)) ''generate_node'' = None"
proof -
  have unbound: "bare_namespace ''retrieve_node'' = None"
    by (simp add: bare_namespace_def)
  have run: "run_module quiet_library bare_namespace 0 =
      (Some (NameError ''retrieve_node''), snd (run_module quiet_library bare_namespace 0))"
    by (rule run_collapse) (rule quiet_bare_run)
  from module_as_given_fails_with_name_error [OF unbound run] unbound run show ?thesis
    by (simp add: bare_namespace_def)
qed

text \<open>
  C3. The module performs its steps in a fixed order: after the imports the state shape
  \<open>AgentState\<close> is defined, then the builder is made from it and the two nodes are
  registered on it, then the three edges, and finally the builder is compiled and the
  result bound to \<open>graph\<close>; nothing else is asked of the library. The steps of every run
  are an initial segment of this sequence; a run that completes has performed all of it,
  ending with the compilation whose result \<open>graph\<close> names, and a run that does not
  complete has not bound \<open>graph\<close>.
\<close>

theorem steps_in_fixed_order:
  assumes "run_module L g0 w = (r, s)"
  shows "prefix (steps (log s)) module_steps \<and>
         (r = None \<longrightarrow>
            steps (log s) = module_steps \<and>
            (\<exists>b. last (log s) = (Compile b, None) \<and>
                 globals s ''workflow'' = Some (BuilderV b) \<and>
                 globals s ''graph'' = Some (GraphV b))) \<and>
         (r \<noteq> None \<longrightarrow> globals s ''graph'' = g0 ''graph'')"
proof (intro conjI impI)
  have "steps (log s) = map step_of (map fst (log s))"
    by (simp add: steps_def)
  moreover from log_prefix [OF assms]
  have "prefix (map step_of (map fst (log s)))
          (map step_of (calls (retrieve_callback g0) (generate_callback g0)))"
    by (rule map_prefix)
  ultimately show "prefix (steps (log s)) module_steps"
    by (simp add: steps_calls module_steps_def)
next
  assume "r = None"
  with assms show "steps (log s) = module_steps"
  proof (cases rule: run_cases)
    case (completed f g)
    have "steps (log s) = map step_of (map fst (log s))"
      by (simp add: steps_def)
    then show ?thesis
      by (simp add: completed(5) map_fst_oks steps_calls module_steps_def)
  qed simp_all
next
  assume "r = None"
  with assms show "\<exists>b. last (log s) = (Compile b, None) \<and>
                 globals s ''workflow'' = Some (BuilderV b) \<and>
                 globals s ''graph'' = Some (GraphV b)"
  proof (cases rule: run_cases)
    case (completed f g)
    have "last (log s) = (Compile (registered 5 f g), None)"
      by (simp add: completed(5) oks_def calls_def)
    then show ?thesis
      by (simp add: completed(4) stage12)
  qed simp_all
next
  assume "r \<noteq> None"
  with assms show "globals s ''graph'' = g0 ''graph''"
  proof (cases rule: run_cases)
    case (raised k x f g)
    then show ?thesis by (simp add: stage_graph)
  next
    case (unbound_retrieve f g)
    then show ?thesis by (simp add: stage_graph)
  next
    case (unbound_generate f g)
    then show ?thesis by (simp add: stage_graph)
  qed simp_all
qed

theorem steps_in_fixed_order_witness:
  "run_module quiet_library user_namespace 0 =
     (None, snd (run_module quiet_library user_namespace 0)) \<and>
   steps (log (snd (run_module quiet_library user_namespace 0))) =
     [Importing, Importing, Importing, Importing, DefiningState, ConstructingBuilder,
      RegisteringNode, RegisteringNode, RegisteringEdge, RegisteringEdge, RegisteringEdge,
      Compiling] \<and>
   (\<exists>b. globals (snd (run_module quiet_library user_namespace 0)) ''graph'' = Some (GraphV b))"
proof -
  have run: "run_module quiet_library user_namespace 0 =
      (None, snd (run_module quiet_library user_namespace 0))"
    by (rule run_collapse) (rule quiet_user_run)
  from steps_in_fixed_order [OF run] run show ?thesis
    by (auto simp: module_steps_def)
qed

text \<open>
  C4. The \<open>AgentState\<close> record has exactly one field, \<open>messages\<close>, typed as a sequence of
  message objects (annotated with the reducer); no other field is declared. Whenever the
  class definition has been carried out, the class it made has this one field, and the
  name \<open>AgentState\<close> is bound to it for the rest of the run.
\<close>

theorem AgentState_has_single_field:
  assumes "run_module L g0 w = (r, s)"
    and "(DefineClass n bs fs, None) \<in> set (log s)"
  shows "n = ''AgentState'' \<and> bs = [Imported ''typing'' ''TypedDict''] \<and>
         map fst fs = [''messages''] \<and>
         fs = [(''messages'',
                Subscript (Imported ''typing'' ''Annotated'')
                  [Subscript (Imported ''typing'' ''Sequence'')
                     [Imported ''langchain_core.messages'' ''BaseMessage''],
                   Imported ''langgraph.graph.message'' ''add_messages''])] \<and>
         globals s ''AgentState'' = Some (ClassObj n bs fs)"
proof -
  have fields: "n = ''AgentState'' \<and> bs = [Imported ''typing'' ''TypedDict''] \<and>
      fs = [(''messages'', messages_annotation)]"
    if "DefineClass n bs fs \<in> set (take k (calls f g))" for k f g
  proof -
    from that have "DefineClass n bs fs \<in> set (calls f g)" by (rule in_set_takeD)
    then show ?thesis by (auto simp: calls_def)
  qed
  have late: "5 \<le> k" if "DefineClass n bs fs \<in> set (take k (calls f g))" for k f g
  proof (rule ccontr)
    assume "\<not> 5 \<le> k"
    then have "k \<le> 4" by simp
    from early_calls [OF this that] show False by auto
  qed
  have bound: "globals s ''AgentState'' = Some (ClassObj n bs fs)"
    if "globals s = stage k g0 f g" and "DefineClass n bs fs \<in> set (take k (calls f g))"
    for k f g
    using that fields [OF that(2)] late [OF that(2)]
    by (simp add: stage_AgentState AgentState_class_def)
  from assms(1) have "\<exists>k f g. globals s = stage k g0 f g \<and>
      DefineClass n bs fs \<in> set (take k (calls f g))"
  proof (cases rule: run_cases)
    case (completed f g)
    with assms(2) have "DefineClass n bs fs \<in> set (take 12 (calls f g))"
      by (auto simp: length_calls dest: in_oks)
    with completed(4) show ?thesis by blast
  next
    case (raised k x f g)
    with assms(2) have "DefineClass n bs fs \<in> set (take k (calls f g))"
      by (auto dest: in_oks)
    with raised(5) show ?thesis by blast
  next
    case (unbound_retrieve f g)
    with assms(2) have "DefineClass n bs fs \<in> set (take 6 (calls f g))"
      by (auto dest: in_oks)
    with unbound_retrieve(3) show ?thesis by blast
  next
    case (unbound_generate f g)
    with assms(2) have "DefineClass n bs fs \<in> set (take 7 (calls f g))"
      by (auto dest: in_oks)
    with unbound_generate(4) show ?thesis by blast
  qed
  then obtain k f g where "globals s = stage k g0 f g"
    and "DefineClass n bs fs \<in> set (take k (calls f g))" by blast
  from bound [OF this] fields [OF this(2)] show ?thesis
    by (simp add: messages_annotation_def)
qed

theorem AgentState_has_single_field_witness:
  "run_module quiet_library bare_namespace 0 =
     (Some (NameError ''retrieve_node''), snd (run_module quiet_library bare_namespace 0)) \<and>
   (DefineClass ''AgentState'' [Imported ''typing'' ''TypedDict'']
      [(''messages'', messages_annotation)], None)
     \<in> set (log (snd (run_module quiet_library bare_namespace 0))) \<and>
   globals (snd (run_module quiet_library bare_namespace 0)) ''AgentState'' =
     Some (ClassObj ''AgentState'' [Imported ''typing'' ''TypedDict'']
       [(''messages'', messages_annotation)])"
proof -
  have run: "run_module quiet_library bare_namespace 0 =
      (Some (NameError ''retrieve_node''), snd (run_module quiet_library bare_namespace 0))"
    by (rule run_collapse) (rule quiet_bare_run)
  have logged: "(DefineClass ''AgentState'' [Imported ''typing'' ''TypedDict'']
      [(''messages'', messages_annotation)], None)
     \<in> set (log (snd (run_module quiet_library bare_namespace 0)))"
    by (simp add: run_defs quiet_library_def bare_namespace_def messages_annotation_def)
  from AgentState_has_single_field [OF run logged] run logged show ?thesis
    by simp
qed

text \<open>
  C6. The source has no error handling: nothing in the module catches, inspects or
  recovers from an exception, so an exception raised by any library call (an import,
  the class definition, the builder construction, a node or edge registration, the
  compilation) leaves the module unhandled. Such a call is the last thing the run did,
  and the exception of the run is the one the call raised.
\<close>

theorem library_errors_propagate:
  assumes "run_module L g0 w = (r, s)" and "(c, Some x) \<in> set (log s)"
  shows "r = Some (Raised x) \<and> last (log s) = (c, Some x)"
  using assms(1)
proof (cases rule: run_cases)
  case (completed f g)
  with assms(2) show ?thesis by (simp add: not_in_oks)
next
  case (raised k y f g)
  with assms(2) show ?thesis by (auto simp: not_in_oks)
next
  case (unbound_retrieve f g)
  with assms(2) show ?thesis by (simp add: not_in_oks)
next
  case (unbound_generate f g)
  with assms(2) show ?thesis by (simp add: not_in_oks)
qed

theorem library_errors_propagate_witness:
  "run_module strict_library user_namespace 0 =
     (Some (Raised ''ValueError''), snd (run_module strict_library user_namespace 0)) \<and>
   fst (last (log (snd (run_module strict_library user_namespace 0)))) =
     Compile (Builder AgentState_class
       [(''retrieve'', Function ''retrieve_node''), (''generate'', Function ''generate_node'')]
       [(START, Str ''retrieve''), (Str ''retrieve'', Str ''generate''),
        (Str ''generate'', END)]) \<and>
   snd (last (log (snd (run_module strict_library user_namespace 0)))) = Some ''ValueError''"
proof -
  let ?b = "Builder AgentState_class
       [(''retrieve'', Function ''retrieve_node''), (''generate'', Function ''generate_node'')]
       [(START, Str ''retrieve''), (Str ''retrieve'', Str ''generate''),
        (Str ''generate'', END)]"
  have run: "run_module strict_library user_namespace 0 =
      (Some (Raised ''ValueError''), snd (run_module strict_library user_namespace 0))"
    by (rule run_collapse) (rule strict_user_run)
  have logged: "(Compile ?b, Some ''ValueError'')
      \<in> set (log (snd (run_module strict_library user_namespace 0)))"
    by (simp add: run_defs strict_library_def user_namespace_def AgentState_class_def
        messages_annotation_def START_def END_def)
  from library_errors_propagate [OF run logged] run show ?thesis
    by simp
qed




text \<open>
  C8. If the evaluation of the module fails at the first node registration because
  \<open>retrieve_node\<close> is unbound, the failure is atomic with respect to the declared graph:
  when the error is raised the builder bound to \<open>workflow\<close> holds no node and no edge, no
  registration and no compilation has been asked of the library, and the module has not
  bound the name \<open>graph\<close>.
\<close>

theorem unbound_callback_leaves_builder_empty:
  assumes "run_module L g0 w = (Some (NameError ''retrieve_node''), s)"
  shows "g0 ''retrieve_node'' = None \<and>
         (\<exists>b. globals s ''workflow'' = Some (BuilderV b) \<and> nodes b = [] \<and> edges b = []) \<and>
         registrations (log s) = [] \<and>
         steps (log s) =
           [Importing, Importing, Importing, Importing, DefiningState, ConstructingBuilder] \<and>
         globals s ''graph'' = g0 ''graph''"
  using assms
proof (cases rule: run_cases)
  case (unbound_retrieve f g)
  have "globals s ''workflow'' = Some (BuilderV (Builder AgentState_class [] []))"
    by (simp add: unbound_retrieve(3) stage6)
  moreover have "globals s ''graph'' = g0 ''graph''"
    by (simp add: unbound_retrieve(3) stage_graph)
  moreover have "map fst (log s) = take 6 (calls f g)"
    by (simp add: unbound_retrieve(4) map_fst_oks)
  then have "registrations (log s) = []"
    and "steps (log s) =
           [Importing, Importing, Importing, Importing, DefiningState, ConstructingBuilder]"
    by (simp_all add: registrations_def steps_def calls_def map_filter_simps
        flip: map_map [of step_of fst, unfolded comp_def])
  ultimately show ?thesis
    using unbound_retrieve(2) by simp
qed simp_all

theorem unbound_callback_leaves_builder_empty_witness:
  "run_module quiet_library bare_namespace 0 =
     (Some (NameError ''retrieve_node''), snd (run_module quiet_library bare_namespace 0)) \<and>
   globals (snd (run_module quiet_library bare_namespace 0)) ''workflow'' =
     Some (BuilderV (Builder AgentState_class [] [])) \<and>
   registrations (log (snd (run_module quiet_library bare_namespace 0))) = [] \<and>
   globals (snd (run_module quiet_library bare_namespace 0)) ''graph'' = None"
proof -
  have run: "run_module quiet_library bare_namespace 0 =
      (Some (NameError ''retrieve_node''), snd (run_module quiet_library bare_namespace 0))"
    by (rule run_collapse) (rule quiet_bare_run)
  have "globals (snd (run_module quiet_library bare_namespace 0)) ''workflow'' =
     Some (BuilderV (Builder AgentState_class [] []))"
    by (simp add: run_defs quiet_library_def bare_namespace_def AgentState_class_def
        messages_annotation_def)
  with unbound_callback_leaves_builder_empty [OF run] run show ?thesis
    by (simp add: bare_namespace_def)
qed

text \<open>
  C9. Every edge registered on the builder has both endpoints equal to a sentinel (START
  or END) or to the name of a node registered before, and the two node names are distinct
  from each other and from the sentinels, so the declared graph has no dangling edge
  endpoint. Every registration call of every run is well formed on the builder as it is
  when the call is made: a new node has a name that is not yet on the builder and is
  neither of the reserved names \<^verbatim>\<open>__start__\<close> and \<^verbatim>\<open>__end__\<close>, and both endpoints of a new
  edge are a sentinel or a node already on the builder.
\<close>

theorem registrations_are_well_formed:
  assumes "run_module L g0 w = (r, s)"
  shows "\<forall>e \<in> set (log s). well_formed (fst e)"
proof
  fix e assume "e \<in> set (log s)"
  then have "fst e \<in> set (map fst (log s))" by simp
  moreover from log_prefix [OF assms]
  have "set (map fst (log s)) \<subseteq> set (calls (retrieve_callback g0) (generate_callback g0))"
    by (rule set_mono_prefix)
  ultimately show "well_formed (fst e)"
    by (auto intro: well_formed_calls)
qed

theorem registrations_are_well_formed_witness:
  "run_module quiet_library user_namespace 0 =
     (None, snd (run_module quiet_library user_namespace 0)) \<and>
   (AddEdge (Builder AgentState_class
       [(''retrieve'', Function ''retrieve_node''), (''generate'', Function ''generate_node'')]
       [(START, Str ''retrieve'')]) (Str ''retrieve'') (Str ''generate''), None)
     \<in> set (log (snd (run_module quiet_library user_namespace 0))) \<and>
   endpoint_ok (Builder AgentState_class
       [(''retrieve'', Function ''retrieve_node''), (''generate'', Function ''generate_node'')]
       [(START, Str ''retrieve'')]) (Str ''retrieve'') \<and>
   endpoint_ok (Builder AgentState_class
       [(''retrieve'', Function ''retrieve_node''), (''generate'', Function ''generate_node'')]
       [(START, Str ''retrieve'')]) (Str ''generate'')"
proof -
  let ?b = "Builder AgentState_class
       [(''retrieve'', Function ''retrieve_node''), (''generate'', Function ''generate_node'')]
       [(START, Str ''retrieve'')]"
  have run: "run_module quiet_library user_namespace 0 =
      (None, snd (run_module quiet_library user_namespace 0))"
    by (rule run_collapse) (rule quiet_user_run)
  have logged: "(AddEdge ?b (Str ''retrieve'') (Str ''generate''), None)
      \<in> set (log (snd (run_module quiet_library user_namespace 0)))"
    by (simp add: run_defs quiet_library_def user_namespace_def AgentState_class_def
        messages_annotation_def START_def END_def)
  from registrations_are_well_formed [OF run] logged
  have "well_formed (fst (AddEdge ?b (Str ''retrieve'') (Str ''generate''), None :: string option))"
    by blast
  with run logged show ?thesis by simp
qed

end
